theory Spec2Isabelle
  imports Main "HOL-Library.Sublist"
begin

section \<open>Errors, observable events and the environment\<close>

text \<open>
  The model covers \<^verbatim>\<open>PrepareBenchmarkFactory\<close> of \<^verbatim>\<open>s64da_benchmark_toolkit/prepare.py\<close>.
  Every exception the code can raise is a value of \<open>err\<close>; a method returns the pair of
  its result (\<open>Inl\<close> the exception, \<open>Inr ()\<close> a normal return) and the list of externally
  visible actions it performed, in order.
\<close>

datatype err =
    AssertionError string
  | NotEnoughDiskSpace int int
  | KeyError string
  | IndexError
  | ValueError
  | CancelledError
  | OSError string
  | DatabaseError string

datatype event =
    Print string
  | PrintDiskCheck string string string int int
  | PrintTaskException err
  | DiskUsage string
  | DBOpen string
  | DBExec string string
  | DBClose string
  | PoolOpen int
  | Submit string
  | Popen string string
  | Exited string int

type_synonym outcome = "(err + unit) \<times> event list"

record parsed_url =
  scheme :: string
  netloc :: string
  path :: string

text \<open>
  What the code reads from outside itself: regular files and their contents, the free
  bytes of a volume (\<open>None\<close>: \<^verbatim>\<open>shutil.disk_usage\<close> raises), the exit status of a shell
  command run in a working directory (\<open>None\<close>: \<^verbatim>\<open>Popen\<close> itself raises), whether a
  connection or a statement succeeds, and \<^verbatim>\<open>urllib.parse.urlparse\<close>.
\<close>

record env =
  files :: "string \<Rightarrow> string option"
  disk_free :: "string \<Rightarrow> int option"
  shell :: "string \<Rightarrow> string \<Rightarrow> int option"
  db_connect_ok :: "string \<Rightarrow> bool"
  db_exec_ok :: "string \<Rightarrow> string \<Rightarrow> bool"
  urlparse :: "string \<Rightarrow> parsed_url"

text \<open>What a plugin's \<^verbatim>\<open>get_ingest_tasks\<close> returns: a list of shell commands, or anything else.\<close>

datatype answer = TaskList "string list" | NotAList

text \<open>
  The object itself: \<^verbatim>\<open>self.args\<close>, \<^verbatim>\<open>self.benchmark\<close>, \<^verbatim>\<open>self.schema_dir\<close>, the class
  attributes \<^verbatim>\<open>TABLES\<close> and \<^verbatim>\<open>SIZING_FACTORS\<close> (a dict of dicts with integer
  multipliers), and the overridable method \<^verbatim>\<open>get_ingest_tasks\<close>.
\<close>

record factory =
  scale_factor :: int
  dsn :: string
  max_jobs :: int
  check_diskspace_of_directory :: "string option"
  benchmark_name :: string
  base_dir :: string
  schema_dir :: string
  TABLES :: "string list"
  SIZING_FACTORS :: "string \<Rightarrow> (int \<Rightarrow> int option) option"
  get_ingest_tasks :: "string \<Rightarrow> answer"

section \<open>Library functions on strings and paths\<close>

text \<open>\<^verbatim>\<open>str.split(sep)\<close> for a one-character separator.\<close>

fun split_char :: "char \<Rightarrow> string \<Rightarrow> string list" where
  "split_char c [] = [] # []"
| "split_char c (x # xs) =
     (if x = c then [] # split_char c xs
      else (case split_char c xs of
              [] \<Rightarrow> [x] # []
            | p # ps \<Rightarrow> (x # p) # ps))"

text \<open>\<^verbatim>\<open>posixpath.basename\<close>: everything after the last slash.\<close>

definition basename :: "string \<Rightarrow> string" where
  "basename p = rev (takeWhile (\<lambda>c. c \<noteq> CHR ''/'') (rev p))"

text \<open>\<^verbatim>\<open>posixpath.join\<close> of two components.\<close>

definition path_join :: "string \<Rightarrow> string \<Rightarrow> string" where
  "path_join a b =
     (if b \<noteq> [] \<and> hd b = CHR ''/'' then b
      else if a = [] \<or> last a = CHR ''/'' then a @ b
      else a @ ''/'' @ b)"

section \<open>The disk-space preflight\<close>

text \<open>
  Lines 38 to 40 of \<^verbatim>\<open>_check_diskspace\<close>: the key under which the size model is read.
  \<^verbatim>\<open>[0]\<close> on an empty list would raise \<^verbatim>\<open>IndexError\<close>.
\<close>

definition db_type_of :: "string \<Rightarrow> err + string" where
  "db_type_of sdir =
     (case split_char CHR ''_'' (basename sdir) of
        [] \<Rightarrow> Inl IndexError
      | db_type # _ \<Rightarrow> Inr (if db_type = ''sdb'' then ''s64da'' else db_type))"

definition skip_warning :: string where
  "skip_warning = ''Could not determine size factor. Not checking disk space.''"

text \<open>
  Lines 48 to 58 of \<^verbatim>\<open>_check_diskspace\<close>, reached with a size factor that is neither
  \<^verbatim>\<open>None\<close> nor 0: the report, the free bytes of the volume, the space needed, and the
  assertion that compares them.
\<close>

definition compare_space :: "env \<Rightarrow> factory \<Rightarrow> string \<Rightarrow> string \<Rightarrow> int \<Rightarrow> outcome" where
  "compare_space w self diskpace_check_dir db_type size_factor =
     (let info = PrintDiskCheck diskpace_check_dir db_type
                   (benchmark_name self) (scale_factor self) size_factor
      in case disk_free w diskpace_check_dir of
           None \<Rightarrow>
             (Inl (OSError diskpace_check_dir),
              [info, DiskUsage diskpace_check_dir])
         | Some free \<Rightarrow>
             (let space_needed =
                    scale_factor self * 1024 * 1024 * 1024 * size_factor
              in if space_needed < free
                 then (Inr (), [info, DiskUsage diskpace_check_dir])
                 else (Inl (NotEnoughDiskSpace space_needed free),
                       [info, DiskUsage diskpace_check_dir])))"

text \<open>
  \<^verbatim>\<open>_check_diskspace\<close>. \<^verbatim>\<open>SIZING_FACTORS[db_type]\<close> raises \<^verbatim>\<open>KeyError\<close> on a kind that
  has no entry; \<^verbatim>\<open>.get(scale_factor)\<close> gives \<^verbatim>\<open>None\<close> on a scale factor that has none;
  \<^verbatim>\<open>not size_factor\<close> holds for \<^verbatim>\<open>None\<close> and for 0.
\<close>

definition check_diskspace :: "env \<Rightarrow> factory \<Rightarrow> string \<Rightarrow> outcome" where
  "check_diskspace w self diskpace_check_dir =
     (case db_type_of (schema_dir self) of
        Inl e \<Rightarrow> (Inl e, [])
      | Inr db_type \<Rightarrow>
          (case SIZING_FACTORS self db_type of
             None \<Rightarrow> (Inl (KeyError db_type), [])
           | Some by_scale \<Rightarrow>
               (case by_scale (scale_factor self) of
                  None \<Rightarrow> (Inr (), [Print skip_warning])
                | Some size_factor \<Rightarrow>
                    if size_factor = 0 then (Inr (), [Print skip_warning])
                    else compare_space w self diskpace_check_dir db_type size_factor)))"

section \<open>Sequencing and scoped connections\<close>

text \<open>Statement after statement: an exception in the first part skips the second.\<close>

definition andthen :: "outcome \<Rightarrow> outcome \<Rightarrow> outcome" where
  "andthen a b = (case fst a of Inl e \<Rightarrow> a | Inr u \<Rightarrow> (fst b, snd a @ snd b))"

definition emit :: "event \<Rightarrow> outcome" where
  "emit e = (Inr (), [e])"

text \<open>
  Modelled from the spec: the class \<^verbatim>\<open>DBConn\<close> of \<^verbatim>\<open>dbconn.py\<close>, which the sources at hand
  import and do not contain. A connection is scoped: acquired, used for one statement
  group, and released on completion or on error; a failing connection attempt or
  statement raises.
\<close>

definition with_DBConn :: "env \<Rightarrow> string \<Rightarrow> outcome \<Rightarrow> outcome" where
  "with_DBConn w d body =
     (if db_connect_ok w d then (fst body, [DBOpen d] @ snd body @ [DBClose d])
      else (Inl (DatabaseError d), []))"

definition execute :: "env \<Rightarrow> string \<Rightarrow> string \<Rightarrow> outcome" where
  "execute w d sql =
     (if db_exec_ok w d sql then (Inr (), [DBExec d sql])
      else (Inl (DatabaseError sql), [DBExec d sql]))"

section \<open>The database bootstrapper\<close>

definition admin_dsn :: "parsed_url \<Rightarrow> string" where
  "admin_dsn dsn_url = scheme dsn_url @ ''://'' @ netloc dsn_url @ ''/postgres''"

definition drop_sql :: "string \<Rightarrow> string" where
  "drop_sql dbname = ''DROP DATABASE IF EXISTS '' @ dbname"

definition create_sql :: "string \<Rightarrow> string" where
  \<open>create_sql dbname =
     ''CREATE DATABASE '' @ dbname @ '' TEMPLATE template0 ENCODING 'UTF-8'' @ [CHR 0x27]\<close>

text \<open>\<^verbatim>\<open>prepare_db\<close>; \<^verbatim>\<open>dsn_url.path[1:]\<close> drops the leading slash.\<close>

definition prepare_db :: "env \<Rightarrow> factory \<Rightarrow> outcome" where
  "prepare_db w self =
     (let dsn_url = urlparse w (dsn self);
          dbname = drop 1 (path dsn_url);
          schema_path = path_join (schema_dir self) ''schema.sql''
      in andthen
           (with_DBConn w (admin_dsn dsn_url)
              (andthen (emit (Print (''Deleting '' @ dbname)))
              (andthen (execute w (admin_dsn dsn_url) (drop_sql dbname))
              (andthen (emit (Print (''Creating '' @ dbname)))
                       (execute w (admin_dsn dsn_url) (create_sql dbname))))))
           (with_DBConn w (dsn self)
              (andthen (emit (Print ''Loading schema''))
                 (case files w schema_path of
                    None \<Rightarrow> (Inl (OSError schema_path), [])
                  | Some sql \<Rightarrow> execute w (dsn self) sql))))"

section \<open>The index and constraint stage\<close>

text \<open>The body of the \<^verbatim>\<open>for\<close> loop of \<^verbatim>\<open>add_indexes\<close>, over the files still to visit.\<close>

fun add_indexes_loop :: "env \<Rightarrow> factory \<Rightarrow> string list \<Rightarrow> outcome" where
  "add_indexes_loop w self [] = (Inr (), [])"
| "add_indexes_loop w self (sql_file # rest) =
     (let sql_file_path = path_join (schema_dir self) sql_file
      in case files w sql_file_path of
           None \<Rightarrow> add_indexes_loop w self rest
         | Some sql \<Rightarrow>
             andthen
               (with_DBConn w (dsn self)
                  (andthen (emit (Print (''Applying '' @ sql_file_path)))
                     (if sql \<noteq> [] then execute w (dsn self) sql else (Inr (), []))))
               (add_indexes_loop w self rest))"

definition sql_files :: "string list" where
  "sql_files = [''primary-keys.sql'', ''foreign-keys.sql'', ''indexes.sql'']"

definition add_indexes :: "env \<Rightarrow> factory \<Rightarrow> outcome" where
  "add_indexes w self = add_indexes_loop w self sql_files"

section \<open>Shell tasks\<close>

definition shell_assert :: string where
  "shell_assert = ''Shell task did not finish with exit code 0''"

text \<open>
  \<^verbatim>\<open>_run_shell_task\<close> in its two halves: \<^verbatim>\<open>Popen\<close> starts the process in the benchmark's
  base directory; \<^verbatim>\<open>wait\<close> and the assertion end it, with the exception raised if any.
\<close>

definition shell_start :: "factory \<Rightarrow> string \<Rightarrow> event" where
  "shell_start self task = Popen (base_dir self) task"

definition shell_finish :: "env \<Rightarrow> factory \<Rightarrow> string \<Rightarrow> err option \<times> event list" where
  "shell_finish w self task =
     (case shell w (base_dir self) task of
        None \<Rightarrow> (Some (OSError task), [])
      | Some returncode \<Rightarrow>
          (if returncode = 0 then None else Some (AssertionError shell_assert),
           [Exited task returncode]))"

definition run_shell_task :: "env \<Rightarrow> factory \<Rightarrow> string \<Rightarrow> outcome" where
  "run_shell_task w self task =
     (case shell_finish w self task of
        (None, evs) \<Rightarrow> (Inr (), shell_start self task # evs)
      | (Some exc, evs) \<Rightarrow> (Inl exc, shell_start self task # evs))"

section \<open>The parallel task runner\<close>

text \<open>
  \<^verbatim>\<open>_run_tasks_parallel\<close> runs on \<^verbatim>\<open>concurrent.futures\<close>. A future is in one of the
  library's five states; a finished one holds the exception its task raised, if any.
\<close>

datatype fstate =
    PENDING
  | RUNNING
  | CANCELLED
  | CANCELLED_AND_NOTIFIED
  | FINISHED "err option"

text \<open>
  Where the calling thread stands: in the list comprehension that submits the tasks, in
  the \<^verbatim>\<open>for\<close> loop over \<^verbatim>\<open>as_completed\<close>, in the inner loop that cancels the futures
  one by one (at the given index), or past an exception that left the loop.
\<close>

datatype mainpc = Submitting | Iterating | Cancelling nat | Raised

record pool =
  tasks :: "string list"
  states :: "fstate list"
  yielded :: "nat list"
  pc :: mainpc
  trace :: "event list"

text \<open>
  The threads interleave; which one moves next is the scheduler's choice, given to the
  model as a list. \<open>Worker\<close>: an idle worker thread takes the oldest work item off the
  queue. \<open>Done i\<close>: the process of running future \<open>i\<close> ends. \<open>Main\<close>: the calling
  thread submits the next task or cancels the next future. \<open>Yield i\<close>:
  \<^verbatim>\<open>as_completed\<close> hands future \<open>i\<close> to the loop body.
\<close>

datatype choice = Worker | Done nat | Main | Yield nat

definition queued :: "fstate \<Rightarrow> bool" where
  "queued s = (s = PENDING \<or> s = CANCELLED)"

fun first_queued :: "fstate list \<Rightarrow> nat option" where
  "first_queued [] = None"
| "first_queued (s # ss) =
     (if queued s then Some 0 else map_option Suc (first_queued ss))"

definition running :: "fstate list \<Rightarrow> nat" where
  "running ss = length (filter (\<lambda>s. s = RUNNING) ss)"

text \<open>\<^verbatim>\<open>Future.cancel\<close>: only a future that has not started changes state.\<close>

definition cancel :: "fstate \<Rightarrow> fstate" where
  "cancel s = (if s = PENDING then CANCELLED else s)"

text \<open>
  One move. A worker thread exists for each of at most \<^verbatim>\<open>max_workers\<close> tasks at a time;
  taking a cancelled item off the queue only notifies its waiters
  (\<^verbatim>\<open>set_running_or_notify_cancel\<close>). \<^verbatim>\<open>Future.exception\<close> returns the exception of a
  finished future and raises \<^verbatim>\<open>CancelledError\<close> on a cancelled one. A move that the
  state does not allow gives \<open>None\<close>.
\<close>

definition pool_step :: "env \<Rightarrow> factory \<Rightarrow> choice \<Rightarrow> pool \<Rightarrow> pool option" where
  "pool_step w self c p =
     (case c of
        Worker \<Rightarrow>
          (if int (running (states p)) < max_jobs self then
             (case first_queued (states p) of
                None \<Rightarrow> None
              | Some i \<Rightarrow>
                  if states p ! i = CANCELLED
                  then Some (p\<lparr>states := (states p)[i := CANCELLED_AND_NOTIFIED]\<rparr>)
                  else Some (p\<lparr>states := (states p)[i := RUNNING],
                              trace := trace p @ [shell_start self (tasks p ! i)]\<rparr>))
           else None)
      | Done i \<Rightarrow>
          (if i < length (states p) \<and> states p ! i = RUNNING then
             (case shell_finish w self (tasks p ! i) of
                (exc, evs) \<Rightarrow>
                  Some (p\<lparr>states := (states p)[i := FINISHED exc],
                         trace := trace p @ evs\<rparr>))
           else None)
      | Main \<Rightarrow>
          (case pc p of
             Submitting \<Rightarrow>
               (if length (states p) < length (tasks p) then
                  Some (p\<lparr>states := states p @ [PENDING],
                         trace := trace p @ [Submit (tasks p ! length (states p))],
                         pc := (if Suc (length (states p)) < length (tasks p)
                                then Submitting else Iterating)\<rparr>)
                else None)
           | Cancelling k \<Rightarrow>
               (if k < length (states p) then
                  Some (p\<lparr>states := (states p)[k := cancel (states p ! k)],
                         pc := (if Suc k < length (states p)
                                then Cancelling (Suc k) else Iterating)\<rparr>)
                else None)
           | Iterating \<Rightarrow> None
           | Raised \<Rightarrow> None)
      | Yield i \<Rightarrow>
          (if pc p = Iterating \<and> i < length (states p) \<and> i \<notin> set (yielded p) then
             (case states p ! i of
                FINISHED None \<Rightarrow> Some (p\<lparr>yielded := yielded p @ [i]\<rparr>)
              | FINISHED (Some exc) \<Rightarrow>
                  Some (p\<lparr>yielded := yielded p @ [i],
                         trace := trace p @ [PrintTaskException exc],
                         pc := Cancelling 0\<rparr>)
              | CANCELLED_AND_NOTIFIED \<Rightarrow>
                  Some (p\<lparr>yielded := yielded p @ [i], pc := Raised\<rparr>)
              | PENDING \<Rightarrow> None
              | RUNNING \<Rightarrow> None
              | CANCELLED \<Rightarrow> None)
           else None))"

fun exec_schedule :: "env \<Rightarrow> factory \<Rightarrow> choice list \<Rightarrow> pool \<Rightarrow> pool option" where
  "exec_schedule w self [] p = Some p"
| "exec_schedule w self (c # cs) p =
     (case pool_step w self c p of
        None \<Rightarrow> None
      | Some p' \<Rightarrow> exec_schedule w self cs p')"

text \<open>
  How the \<^verbatim>\<open>with\<close> block ends. The loop ends normally once every future has been
  yielded. An exception leaves through \<^verbatim>\<open>shutdown(wait=True)\<close>, which returns once the
  workers have emptied the queue and every started task has ended. Anything else is a
  schedule that stops before the method returns.
\<close>

definition settled :: "fstate \<Rightarrow> bool" where
  "settled s = (case s of FINISHED exc \<Rightarrow> True | CANCELLED_AND_NOTIFIED \<Rightarrow> True
                | PENDING \<Rightarrow> False | RUNNING \<Rightarrow> False | CANCELLED \<Rightarrow> False)"

definition pool_result :: "pool \<Rightarrow> (err + unit) option" where
  "pool_result p =
     (case pc p of
        Iterating \<Rightarrow>
          (if length (yielded p) = length (states p) then Some (Inr ()) else None)
      | Raised \<Rightarrow>
          (if list_all settled (states p) then Some (Inl CancelledError) else None)
      | Submitting \<Rightarrow> None
      | Cancelling k \<Rightarrow> None)"

definition pool_init :: "factory \<Rightarrow> string list \<Rightarrow> pool" where
  "pool_init self ts =
     \<lparr>tasks = ts, states = [], yielded = [],
      pc = (if ts = [] then Iterating else Submitting),
      trace = [PoolOpen (max_jobs self)]\<rparr>"

text \<open>
  \<^verbatim>\<open>_run_tasks_parallel\<close> under a schedule: \<open>None\<close> when the schedule is not one of its
  executions up to its return. \<^verbatim>\<open>ThreadPoolExecutor\<close> refuses a worker count below 1.
\<close>

definition run_tasks_parallel ::
  "env \<Rightarrow> factory \<Rightarrow> choice list \<Rightarrow> string list \<Rightarrow> outcome option" where
  "run_tasks_parallel w self sched ts =
     (if max_jobs self \<le> 0 then Some (Inl ValueError, [])
      else (case exec_schedule w self sched (pool_init self ts) of
              None \<Rightarrow> None
            | Some p \<Rightarrow>
                (case pool_result p of
                   None \<Rightarrow> None
                 | Some r \<Rightarrow> Some (r, trace p))))"

section \<open>The stages that use the runner, and the pipeline\<close>

definition seq_opt :: "outcome option \<Rightarrow> outcome option \<Rightarrow> outcome option" where
  "seq_opt a b =
     (case a of
        None \<Rightarrow> None
      | Some (Inl e, t) \<Rightarrow> Some (Inl e, t)
      | Some (Inr u, t) \<Rightarrow>
          (case b of None \<Rightarrow> None | Some (r, t') \<Rightarrow> Some (r, t @ t')))"

definition vacuum_cmd :: "factory \<Rightarrow> string" where
  \<open>vacuum_cmd self = ''psql '' @ dsn self @ '' -c "VACUUM"''\<close>

definition analyze_cmd :: "factory \<Rightarrow> string \<Rightarrow> string" where
  \<open>analyze_cmd self table = ''psql '' @ dsn self @ '' -c "ANALYZE '' @ table @ ''"''\<close>

definition vacuum_analyze :: "env \<Rightarrow> factory \<Rightarrow> choice list \<Rightarrow> outcome option" where
  "vacuum_analyze w self sched =
     seq_opt (Some (run_shell_task w self (vacuum_cmd self)))
             (run_tasks_parallel w self sched (map (analyze_cmd self) (TABLES self)))"

definition not_a_list :: string where
  "not_a_list = ''Returned object is not a list''"

text \<open>The \<^verbatim>\<open>for\<close> loop of \<^verbatim>\<open>run\<close> that gathers \<^verbatim>\<open>ingest_tasks\<close>, table after table.\<close>

fun collect_ingest_tasks :: "factory \<Rightarrow> string list \<Rightarrow> string list \<Rightarrow> err + string list" where
  "collect_ingest_tasks self [] ingest_tasks = Inr ingest_tasks"
| "collect_ingest_tasks self (table # rest) ingest_tasks =
     (case get_ingest_tasks self table of
        NotAList \<Rightarrow> Inl (AssertionError not_a_list)
      | TaskList ts \<Rightarrow> collect_ingest_tasks self rest (ingest_tasks @ ts))"

text \<open>Lines 68 to 74 of \<^verbatim>\<open>run\<close>: the ingestion stage.\<close>

definition ingest :: "env \<Rightarrow> factory \<Rightarrow> choice list \<Rightarrow> outcome option" where
  "ingest w self sched =
     seq_opt (Some (emit (Print ''Ingesting data'')))
       (case collect_ingest_tasks self (TABLES self) [] of
          Inl e \<Rightarrow> Some (Inl e, [])
        | Inr ingest_tasks \<Rightarrow> run_tasks_parallel w self sched ingest_tasks)"

text \<open>Lines 61 to 63 of \<^verbatim>\<open>run\<close>: the preflight runs only for a non-empty directory.\<close>

definition preflight :: "env \<Rightarrow> factory \<Rightarrow> outcome" where
  "preflight w self =
     (case check_diskspace_of_directory self of
        None \<Rightarrow> (Inr (), [])
      | Some diskpace_check_dir \<Rightarrow>
          if diskpace_check_dir = [] then (Inr (), [])
          else check_diskspace w self diskpace_check_dir)"

text \<open>\<^verbatim>\<open>run\<close>, with one schedule for each of the two batches.\<close>

definition run :: "env \<Rightarrow> factory \<Rightarrow> choice list \<Rightarrow> choice list \<Rightarrow> outcome option" where
  "run w self ingest_sched analyze_sched =
     seq_opt (Some (preflight w self))
    (seq_opt (Some (emit (Print ''Preparing DB'')))
    (seq_opt (Some (prepare_db w self))
    (seq_opt (ingest w self ingest_sched)
    (seq_opt (Some (emit (Print ''Adding indices'')))
    (seq_opt (Some (add_indexes w self))
    (seq_opt (Some (emit (Print ''VACUUM-ANALYZE'')))
             (vacuum_analyze w self analyze_sched)))))))"

section \<open>Reading the specification's words\<close>

text \<open>
  The specification speaks of the portion of a name before its first underscore; this is
  that portion, written without reference to the code.
\<close>

definition spec_before_underscore :: "string \<Rightarrow> string" where
  "spec_before_underscore s = takeWhile (\<lambda>c. c \<noteq> CHR ''_'') s"

text \<open>
  What the index and constraint stage does for one of its files when nothing fails, as the
  specification has it, with the one guard the code has: a missing file leaves no trace;
  a present one gets its own connection, opened and closed, and its contents are executed
  as one block unless they are the empty string.
\<close>

definition spec_file_trace :: "env \<Rightarrow> factory \<Rightarrow> string \<Rightarrow> event list" where
  "spec_file_trace w self sql_file =
     (case files w (path_join (schema_dir self) sql_file) of
        None \<Rightarrow> []
      | Some sql \<Rightarrow>
          [DBOpen (dsn self), Print (''Applying '' @ path_join (schema_dir self) sql_file)]
          @ (if sql = [] then [] else [DBExec (dsn self) sql])
          @ [DBClose (dsn self)])"

text \<open>The tasks of a plugin's answer, none for an answer that is not a list.\<close>

fun the_tasks :: "answer \<Rightarrow> string list" where
  "the_tasks (TaskList ts) = ts"
| "the_tasks NotAList = []"

section \<open>Projections of a trace\<close>

text \<open>The statements executed, and the connections opened, in order.\<close>

fun executed :: "event list \<Rightarrow> string list" where
  "executed [] = []"
| "executed (DBExec d sql # es) = sql # executed es"
| "executed (e # es) = executed es"

fun opened :: "event list \<Rightarrow> string list" where
  "opened [] = []"
| "opened (DBOpen d # es) = d # opened es"
| "opened (e # es) = opened es"

text \<open>
  The commands handed to a pool, the worker bounds of the pools created, the commands of
  the processes started, and the first event, each in the order of the trace.
\<close>

fun submitted :: "event list \<Rightarrow> string list" where
  "submitted [] = []"
| "submitted (Submit t # es) = t # submitted es"
| "submitted (e # es) = submitted es"

fun pools :: "event list \<Rightarrow> int list" where
  "pools [] = []"
| "pools (PoolOpen n # es) = n # pools es"
| "pools (e # es) = pools es"

fun started :: "event list \<Rightarrow> string list" where
  "started [] = []"
| "started (Popen cwd t # es) = t # started es"
| "started (e # es) = started es"

fun first_event :: "event list \<Rightarrow> event option" where
  "first_event [] = None"
| "first_event (e # es) = Some e"

section \<open>What every state of the runner satisfies\<close>

text \<open>
  A future whose task was started is running or finished; the tasks started, given the
  tasks and the states of their futures, in submission order.
\<close>

definition was_started :: "fstate \<Rightarrow> bool" where
  "was_started s = (case s of RUNNING \<Rightarrow> True | FINISHED exc \<Rightarrow> True
                    | PENDING \<Rightarrow> False | CANCELLED \<Rightarrow> False
                    | CANCELLED_AND_NOTIFIED \<Rightarrow> False)"

definition is_finished :: "fstate \<Rightarrow> bool" where
  "is_finished s = (case s of FINISHED exc \<Rightarrow> True | PENDING \<Rightarrow> False | RUNNING \<Rightarrow> False
                    | CANCELLED \<Rightarrow> False | CANCELLED_AND_NOTIFIED \<Rightarrow> False)"

fun started_of :: "string list \<Rightarrow> fstate list \<Rightarrow> string list" where
  "started_of (t # ts) (s # ss) =
     (if was_started s then t # started_of ts ss else started_of ts ss)"
| "started_of ts ss = []"

text \<open>
  The work queue is first in, first out: the futures still on the queue are the last
  ones submitted.
\<close>

fun fifo :: "fstate list \<Rightarrow> bool" where
  "fifo [] = True"
| "fifo (s # ss) = (if queued s then list_all queued ss else fifo ss)"

text \<open>
  The invariant of the runner on the batch \<open>ts\<close>: the futures are those of the first
  tasks of the batch, all of them once the submitting is over; the trace holds the one
  pool, opened first, the submitted tasks and the started ones; the futures yielded are
  distinct and, unless a \<^verbatim>\<open>CancelledError\<close> was raised, finished; no more tasks run
  than \<^verbatim>\<open>max_jobs\<close>.
\<close>

definition pool_inv :: "factory \<Rightarrow> string list \<Rightarrow> pool \<Rightarrow> bool" where
  "pool_inv self ts p =
     (tasks p = ts
      \<and> length (states p) \<le> length ts
      \<and> (pc p = Submitting \<or> length (states p) = length ts)
      \<and> submitted (trace p) = take (length (states p)) ts
      \<and> pools (trace p) = [max_jobs self]
      \<and> first_event (trace p) = Some (PoolOpen (max_jobs self))
      \<and> fifo (states p)
      \<and> started (trace p) = started_of ts (states p)
      \<and> distinct (yielded p)
      \<and> list_all (\<lambda>i. i < length (states p)
                        \<and> (pc p = Raised \<or> is_finished (states p ! i))) (yielded p)
      \<and> int (running (states p)) \<le> max_jobs self)"

section \<open>An execution of the runner for every batch\<close>

text \<open>
  The exception with which task \<open>i\<close> of a batch ends (none when it exits with status
  0), the states of the first futures once their tasks have ended, and the schedule in
  which the calling thread submits every
  task, the workers run the tasks one after the other, and only then the loop over
  \<^verbatim>\<open>as_completed\<close> looks at the futures, in submission order, with its cancelling loop
  after each failed one.
\<close>

definition task_exc :: "env \<Rightarrow> factory \<Rightarrow> string list \<Rightarrow> nat \<Rightarrow> err option" where
  "task_exc w self ts i = fst (shell_finish w self (ts ! i))"

definition all_done :: "env \<Rightarrow> factory \<Rightarrow> string list \<Rightarrow> nat \<Rightarrow> fstate list" where
  "all_done w self ts i = map (\<lambda>j. FINISHED (task_exc w self ts j)) [0..<i]"


section \<open>A concrete benchmark, for evaluation\<close>

text \<open>
  Scale factor 10 on a size model with multiplier 5 for that scale factor, 60 GiB free, a
  schema directory holding \<^verbatim>\<open>schema.sql\<close> and \<^verbatim>\<open>indexes.sql\<close>, two tables, and shell
  commands and statements that all succeed; then the variations the theorems are
  evaluated on.
\<close>

definition row0 :: "int \<Rightarrow> int option" where
  "row0 = [10 \<mapsto> 5]"

definition sizing0 :: "string \<Rightarrow> (int \<Rightarrow> int option) option" where
  "sizing0 = [''psql'' \<mapsto> row0]"

definition zero_row :: "int \<Rightarrow> int option" where
  "zero_row = [10 \<mapsto> 0]"

definition sizing_zero :: "string \<Rightarrow> (int \<Rightarrow> int option) option" where
  "sizing_zero = [''psql'' \<mapsto> zero_row]"

definition no_row :: "int \<Rightarrow> int option" where
  "no_row = Map.empty"

definition sizing_no_row :: "string \<Rightarrow> (int \<Rightarrow> int option) option" where
  "sizing_no_row = [''psql'' \<mapsto> no_row]"

definition sizing_empty :: "string \<Rightarrow> (int \<Rightarrow> int option) option" where
  "sizing_empty = Map.empty"

definition sizing_sdb :: "string \<Rightarrow> (int \<Rightarrow> int option) option" where
  "sizing_sdb = [''sdb'' \<mapsto> row0]"

definition tasks0 :: "string \<Rightarrow> answer" where
  "tasks0 table = TaskList [''load '' @ table]"

definition files0 :: "string \<Rightarrow> string option" where
  "files0 = [''bench/schemas/psql_native/schema.sql'' \<mapsto> ''CREATE TABLE a (x int);'',
             ''bench/schemas/psql_native/indexes.sql'' \<mapsto> ''CREATE INDEX i ON a (x);'']"

definition files_blank :: "string \<Rightarrow> string option" where
  "files_blank = [''bench/schemas/psql_native/schema.sql'' \<mapsto> ''CREATE TABLE a (x int);'',
                  ''bench/schemas/psql_native/primary-keys.sql'' \<mapsto> [],
                  ''bench/schemas/psql_native/indexes.sql'' \<mapsto> [CHR '' '', CHR 0x0A]]"

definition free0 :: "string \<Rightarrow> int option" where
  "free0 d = Some 64424509440"

definition free_exact :: "string \<Rightarrow> int option" where
  "free_exact d = Some 53687091200"

definition full_disk :: "string \<Rightarrow> int option" where
  "full_disk d = Some 0"

definition shell0 :: "string \<Rightarrow> string \<Rightarrow> int option" where
  "shell0 cwd cmd = Some 0"

definition shell_fail_a :: "string \<Rightarrow> string \<Rightarrow> int option" where
  "shell_fail_a cwd cmd = (if cmd = ''load a'' then Some 1 else Some 0)"



definition bad_tasks :: "string \<Rightarrow> answer" where
  "bad_tasks table = (if table = ''b'' then NotAList else TaskList [''load '' @ table])"

definition connect0 :: "string \<Rightarrow> bool" where
  "connect0 d = True"

definition exec0 :: "string \<Rightarrow> string \<Rightarrow> bool" where
  "exec0 d sql = True"

definition urlparse0 :: "string \<Rightarrow> parsed_url" where
  "urlparse0 u = \<lparr>scheme = ''postgresql'', netloc = ''localhost:5432'', path = ''/bench''\<rparr>"

definition env0 :: env where
  "env0 = \<lparr>files = files0, disk_free = free0, shell = shell0, db_connect_ok = connect0,
           db_exec_ok = exec0, urlparse = urlparse0\<rparr>"

definition factory0 :: factory where
  "factory0 =
     \<lparr>scale_factor = 10, dsn = ''postgresql://localhost:5432/bench'', max_jobs = 2,
      check_diskspace_of_directory = Some ''/data'', benchmark_name = ''tpch'',
      base_dir = ''bench'', schema_dir = ''bench/schemas/psql_native'',
      TABLES = [''a'', ''b''], SIZING_FACTORS = sizing0, get_ingest_tasks = tasks0\<rparr>"

text \<open>
  Schedules: one task from submission to the end of the loop; the same when the task
  fails, with the step of the cancelling loop; two tasks run side by side, the second
  ending first; and two tasks on one worker, the first failing before the second starts.
\<close>

definition sched1 :: "choice list" where
  "sched1 = [Main, Worker, Done 0, Yield 0]"

definition sched1_fail :: "choice list" where
  "sched1_fail = [Main, Worker, Done 0, Yield 0, Main]"

definition sched2 :: "choice list" where
  "sched2 = [Main, Main, Worker, Worker, Done 1, Done 0, Yield 1, Yield 0]"

definition sched2_cancel :: "choice list" where
  "sched2_cancel = [Main, Main, Worker, Done 0, Yield 0, Main, Main, Worker, Yield 1]"


section \<open>Properties of the disk-space preflight\<close>

lemma split_char_first: "\<exists>ps. split_char c s = takeWhile (\<lambda>x. x \<noteq> c) s # ps"
  by (induction s) auto

lemma db_type_of_first:
  "db_type_of sdir =
     Inr (if spec_before_underscore (basename sdir) = ''sdb'' then ''s64da''
          else spec_before_underscore (basename sdir))"
proof -
  obtain ps where "split_char CHR ''_'' (basename sdir)
                     = spec_before_underscore (basename sdir) # ps"
    using split_char_first [of "CHR ''_''" "basename sdir"]
    by (auto simp: spec_before_underscore_def)
  then show ?thesis by (simp add: db_type_of_def)
qed

lemma check_missing_kind:
  "db_type_of (schema_dir self) = Inr k \<Longrightarrow> SIZING_FACTORS self k = None \<Longrightarrow>
   check_diskspace w self d = (Inl (KeyError k), [])"
  by (simp add: check_diskspace_def compare_space_def)

lemma db_type_factory0: "db_type_of (schema_dir factory0) = Inr ''psql''"
  by (simp add: db_type_of_def factory0_def basename_def)

text \<open>
  Claim C2, amended. For every scale factor and every registered multiplier other than 0,
  with the free bytes of the volume known, the preflight fails exactly when
  scale factor times 1 GiB times multiplier is at least the free bytes; equal values fail.
  (A registered 0 never fails: the check is skipped.)
\<close>

theorem preflight_fails_iff_needed_ge_free:
  assumes "db_type_of (schema_dir self) = Inr k"
    and "SIZING_FACTORS self k = Some by_scale"
    and "by_scale (scale_factor self) = Some m"
    and "m \<noteq> 0"
    and "disk_free w d = Some free"
  shows "isl (fst (check_diskspace w self d))
           \<longleftrightarrow> free \<le> scale_factor self * (1024 * 1024 * 1024) * m"
  using assms by (auto simp: check_diskspace_def compare_space_def Let_def)

text \<open>The boundary: 50 GiB needed on a volume with exactly 50 GiB free fails.\<close>

theorem preflight_fails_iff_needed_ge_free_witness:
  "db_type_of (schema_dir factory0) = Inr ''psql''
   \<and> SIZING_FACTORS factory0 ''psql'' = Some row0
   \<and> row0 (scale_factor factory0) = Some 5
   \<and> (5::int) \<noteq> 0
   \<and> disk_free (env0\<lparr>disk_free := free_exact\<rparr>) ''/data'' = Some 53687091200
   \<and> isl (fst (check_diskspace (env0\<lparr>disk_free := free_exact\<rparr>) factory0 ''/data''))"
proof -
  have h1: "SIZING_FACTORS factory0 ''psql'' = Some row0"
    by (simp add: factory0_def sizing0_def)
  have h2: "row0 (scale_factor factory0) = Some 5"
    by (simp add: factory0_def row0_def)
  have h3: "(5::int) \<noteq> 0" by simp
  have h4: "disk_free (env0\<lparr>disk_free := free_exact\<rparr>) ''/data'' = Some 53687091200"
    by (simp add: free_exact_def)
  have "isl (fst (check_diskspace (env0\<lparr>disk_free := free_exact\<rparr>) factory0 ''/data''))"
    using preflight_fails_iff_needed_ge_free [OF db_type_factory0 h1 h2 h3 h4]
    by (simp add: factory0_def)
  with db_type_factory0 h1 h2 h3 h4 show ?thesis by blast
qed

text \<open>
  The claim as written fails at a registered multiplier 0 on a full volume: the space
  needed, 0, is at least the 0 free bytes, and the preflight passes.
\<close>

theorem preflight_zero_multiplier_full_disk_passes:
  "SIZING_FACTORS (factory0\<lparr>SIZING_FACTORS := sizing_zero\<rparr>) ''psql'' = Some zero_row
   \<and> zero_row (scale_factor factory0) = Some 0
   \<and> disk_free (env0\<lparr>disk_free := full_disk\<rparr>) ''/data'' = Some 0
   \<and> (0::int) \<le> scale_factor factory0 * (1024 * 1024 * 1024) * 0
   \<and> fst (check_diskspace (env0\<lparr>disk_free := full_disk\<rparr>)
             (factory0\<lparr>SIZING_FACTORS := sizing_zero\<rparr>) ''/data'') = Inr ()"
  by (simp add: check_diskspace_def compare_space_def db_type_of_def factory0_def env0_def basename_def
      sizing_zero_def zero_row_def full_disk_def)

text \<open>
  Claim C3. A pair with no registered multiplier is meant to be skipped with a warning,
  also when the database kind has no entry at all. Evaluated on the class's own default,
  the empty size model, the preflight raises \<^verbatim>\<open>KeyError\<close> instead, and the run stops there
  before any stage.
\<close>

theorem preflight_missing_kind_raises_KeyError:
  "check_diskspace env0 (factory0\<lparr>SIZING_FACTORS := sizing_empty\<rparr>) ''/data''
     = (Inl (KeyError ''psql''), [])
   \<and> run env0 (factory0\<lparr>SIZING_FACTORS := sizing_empty\<rparr>) [] []
     = Some (Inl (KeyError ''psql''), [])
   \<and> check_diskspace env0 (factory0\<lparr>SIZING_FACTORS := sizing_no_row\<rparr>) ''/data''
     = (Inr (), [Print skip_warning])"
  by (simp add: check_diskspace_def compare_space_def db_type_of_def factory0_def basename_def
      sizing_empty_def sizing_no_row_def no_row_def run_def preflight_def seq_opt_def)

text \<open>
  Claim C8. The size model is read under the normalised kind: the portion \<open>sdb\<close> derived
  from the schema directory name is replaced by \<open>s64da\<close>, any other portion is used as
  it is. So the preflight depends on the size model only through the entry under that
  key, and a model without that entry raises \<^verbatim>\<open>KeyError\<close> carrying that key.
\<close>

theorem preflight_reads_size_model_under_normalised_kind:
  assumes "p = spec_before_underscore (basename (schema_dir self))"
    and "k = (if p = ''sdb'' then ''s64da'' else p)"
    and "S2 k = SIZING_FACTORS self k"
  shows "check_diskspace w (self\<lparr>SIZING_FACTORS := S2\<rparr>) d = check_diskspace w self d
       \<and> (SIZING_FACTORS self k = None
            \<longrightarrow> check_diskspace w self d = (Inl (KeyError k), []))"
proof -
  have "db_type_of (schema_dir self) = Inr k"
    using assms(1,2) by (simp add: db_type_of_first)
  then show ?thesis
    using assms(3) by (auto simp: check_diskspace_def compare_space_def Let_def split: option.splits)
qed

text \<open>
  On a schema directory \<open>sdb_enterprise\<close>, a size model with an entry under \<open>sdb\<close> only
  and the empty one give the same outcome: no entry under \<open>s64da\<close>.
\<close>

theorem preflight_reads_size_model_under_normalised_kind_witness:
  "''sdb'' = spec_before_underscore (basename (schema_dir
       (factory0\<lparr>schema_dir := ''bench/schemas/sdb_enterprise'', SIZING_FACTORS := sizing_sdb\<rparr>)))
   \<and> sizing_empty ''s64da'' = SIZING_FACTORS
       (factory0\<lparr>schema_dir := ''bench/schemas/sdb_enterprise'', SIZING_FACTORS := sizing_sdb\<rparr>)
       ''s64da''
   \<and> SIZING_FACTORS
       (factory0\<lparr>schema_dir := ''bench/schemas/sdb_enterprise'', SIZING_FACTORS := sizing_sdb\<rparr>)
       ''s64da'' = None
   \<and> check_diskspace env0
       (factory0\<lparr>schema_dir := ''bench/schemas/sdb_enterprise'', SIZING_FACTORS := sizing_empty\<rparr>)
       ''/data''
     = check_diskspace env0
       (factory0\<lparr>schema_dir := ''bench/schemas/sdb_enterprise'', SIZING_FACTORS := sizing_sdb\<rparr>)
       ''/data''
   \<and> check_diskspace env0
       (factory0\<lparr>schema_dir := ''bench/schemas/sdb_enterprise'', SIZING_FACTORS := sizing_sdb\<rparr>)
       ''/data''
     = (Inl (KeyError ''s64da''), [])"
proof -
  let ?f = "factory0\<lparr>schema_dir := ''bench/schemas/sdb_enterprise'',
                       SIZING_FACTORS := sizing_sdb\<rparr>"
  have h1: "''sdb'' = spec_before_underscore (basename (schema_dir ?f))"
    by (simp add: spec_before_underscore_def basename_def)
  have h2: "''s64da'' = (if ''sdb'' = ''sdb'' then ''s64da'' else ''sdb'')"
    by simp
  have h3: "sizing_empty ''s64da'' = SIZING_FACTORS ?f ''s64da''"
    by (simp add: sizing_empty_def sizing_sdb_def)
  have h4: "SIZING_FACTORS ?f ''s64da'' = None"
    by (simp add: sizing_sdb_def)
  show ?thesis
    using preflight_reads_size_model_under_normalised_kind
            [of "''sdb''" ?f "''s64da''" sizing_empty env0 "''/data''", OF h1 h2 h3]
          h1 h3 h4
    by simp
qed

text \<open>
  Claim C9, amended. A multiplier registered as 0 is treated exactly like a missing entry:
  the preflight returns normally after the one warning, whatever the volume, and never
  asks for the free space; the outcome is that of the same size model with the entry
  removed. Had the comparison run, the space needed would be 0, and it would fail a
  volume exactly when that volume has no free byte.
\<close>

theorem zero_multiplier_skips_like_missing_entry:
  assumes "db_type_of (schema_dir self) = Inr k"
    and "SIZING_FACTORS self k = Some by_scale"
    and "by_scale (scale_factor self) = Some 0"
  shows "check_diskspace w self d = (Inr (), [Print skip_warning])
       \<and> check_diskspace w
            (self\<lparr>SIZING_FACTORS :=
                    (SIZING_FACTORS self)(k \<mapsto> by_scale(scale_factor self := None))\<rparr>) d
          = check_diskspace w self d
       \<and> DiskUsage d \<notin> set (snd (check_diskspace w self d))
       \<and> (\<forall>free. disk_free w d = Some free \<longrightarrow>
             fst (compare_space w self d k 0)
               = (if 0 < free then Inr () else Inl (NotEnoughDiskSpace 0 free)))"
  using assms by (simp add: check_diskspace_def compare_space_def)

text \<open>
  On a volume with 60 GiB free the preflight is skipped, and the comparison would pass.
\<close>

theorem zero_multiplier_skips_like_missing_entry_witness:
  "db_type_of (schema_dir (factory0\<lparr>SIZING_FACTORS := sizing_zero\<rparr>)) = Inr ''psql''
   \<and> SIZING_FACTORS (factory0\<lparr>SIZING_FACTORS := sizing_zero\<rparr>) ''psql'' = Some zero_row
   \<and> zero_row (scale_factor (factory0\<lparr>SIZING_FACTORS := sizing_zero\<rparr>)) = Some 0
   \<and> disk_free env0 ''/data'' = Some 64424509440
   \<and> check_diskspace env0 (factory0\<lparr>SIZING_FACTORS := sizing_zero\<rparr>) ''/data''
      = (Inr (), [Print skip_warning])
   \<and> fst (compare_space env0 (factory0\<lparr>SIZING_FACTORS := sizing_zero\<rparr>) ''/data'' ''psql'' 0)
      = Inr ()"
proof -
  let ?f = "factory0\<lparr>SIZING_FACTORS := sizing_zero\<rparr>"
  have h1: "db_type_of (schema_dir ?f) = Inr ''psql''"
    using db_type_factory0 by simp
  have h2: "SIZING_FACTORS ?f ''psql'' = Some zero_row"
    by (simp add: sizing_zero_def)
  have h3: "zero_row (scale_factor ?f) = Some 0"
    by (simp add: zero_row_def factory0_def)
  have h4: "disk_free env0 ''/data'' = Some 64424509440"
    by (simp add: env0_def free0_def)
  show ?thesis
    using zero_multiplier_skips_like_missing_entry [OF h1 h2 h3, of env0 "''/data''"]
          h1 h2 h3 h4
    by simp
qed

text \<open>
  The claim as written, that the comparison would fail no disk, fails on a full volume:
  the preflight is skipped there as well, and the comparison of the 0 bytes needed with
  the 0 bytes free would raise.
\<close>

theorem zero_multiplier_comparison_would_fail_full_disk:
  "SIZING_FACTORS (factory0\<lparr>SIZING_FACTORS := sizing_zero\<rparr>) ''psql'' = Some zero_row
   \<and> zero_row (scale_factor (factory0\<lparr>SIZING_FACTORS := sizing_zero\<rparr>)) = Some 0
   \<and> disk_free (env0\<lparr>disk_free := full_disk\<rparr>) ''/data'' = Some 0
   \<and> check_diskspace (env0\<lparr>disk_free := full_disk\<rparr>)
        (factory0\<lparr>SIZING_FACTORS := sizing_zero\<rparr>) ''/data''
      = (Inr (), [Print skip_warning])
   \<and> fst (compare_space (env0\<lparr>disk_free := full_disk\<rparr>)
             (factory0\<lparr>SIZING_FACTORS := sizing_zero\<rparr>) ''/data'' ''psql'' 0)
      = Inl (NotEnoughDiskSpace 0 0)"
  by (simp add: check_diskspace_def compare_space_def db_type_of_def factory0_def env0_def
      basename_def sizing_zero_def zero_row_def full_disk_def)

text \<open>
  Claim C10, amended. For every schema directory name, the database kind the preflight
  uses is the portion of the directory's base name before the first underscore (the whole
  base name when it has none), except that the portion \<open>sdb\<close> is replaced by \<open>s64da\<close>.
\<close>

theorem preflight_kind_is_portion_before_underscore_or_alias:
  "db_type_of sdir =
     Inr (if spec_before_underscore (basename sdir) = ''sdb'' then ''s64da''
          else spec_before_underscore (basename sdir))"
  by (rule db_type_of_first)

text \<open>
  The claim as written fails on the directory \<open>sdb_enterprise\<close>: the portion before the
  underscore is \<open>sdb\<close>, and the preflight looks for \<open>s64da\<close>, so that it misses an entry
  registered under \<open>sdb\<close>.
\<close>

theorem preflight_kind_of_sdb_directory_is_alias:
  "spec_before_underscore (basename ''bench/schemas/sdb_enterprise'') = ''sdb''
   \<and> db_type_of ''bench/schemas/sdb_enterprise'' = Inr ''s64da''
   \<and> db_type_of ''bench/schemas/sdb_enterprise''
       \<noteq> Inr (spec_before_underscore (basename ''bench/schemas/sdb_enterprise''))
   \<and> check_diskspace env0
        (factory0\<lparr>schema_dir := ''bench/schemas/sdb_enterprise'', SIZING_FACTORS := sizing_sdb\<rparr>)
        ''/data''
      = (Inl (KeyError ''s64da''), [])"
  by (simp add: spec_before_underscore_def basename_def db_type_of_def check_diskspace_def compare_space_def
      sizing_sdb_def)

section \<open>Properties of the database stages\<close>

lemma executed_append: "executed (xs @ ys) = executed xs @ executed ys"
  by (induction xs rule: executed.induct) auto

lemma opened_append: "opened (xs @ ys) = opened xs @ opened ys"
  by (induction xs rule: opened.induct) auto

lemma add_indexes_loop_trace:
  assumes "db_connect_ok w (dsn self)" and "\<forall>sql. db_exec_ok w (dsn self) sql"
  shows "add_indexes_loop w self fs = (Inr (), concat (map (spec_file_trace w self) fs))"
  using assms
  by (induction fs)
     (auto simp: spec_file_trace_def andthen_def with_DBConn_def execute_def emit_def Let_def
           split: option.splits)

text \<open>
  Claim C4, amended. When the connections and statements succeed, the index and constraint
  stage visits \<^verbatim>\<open>primary-keys.sql\<close>, then \<^verbatim>\<open>foreign-keys.sql\<close>, then \<^verbatim>\<open>indexes.sql\<close>, each
  present file over its own scoped connection; a missing file is skipped silently, and a
  file whose contents are the empty string is skipped without executing any SQL. The
  statements executed are the non-empty contents of the present files, in that order, and
  one connection is opened for each present file.
\<close>

theorem add_indexes_applies_present_files_in_order:
  assumes "db_connect_ok w (dsn self)" and "\<forall>sql. db_exec_ok w (dsn self) sql"
  shows "add_indexes w self =
           (Inr (), spec_file_trace w self ''primary-keys.sql''
                    @ spec_file_trace w self ''foreign-keys.sql''
                    @ spec_file_trace w self ''indexes.sql'')
         \<and> executed (snd (add_indexes w self)) =
             filter (\<lambda>sql. sql \<noteq> [])
               (List.map_filter (\<lambda>f. files w (path_join (schema_dir self) f))
                  [''primary-keys.sql'', ''foreign-keys.sql'', ''indexes.sql''])
         \<and> opened (snd (add_indexes w self)) =
             map (\<lambda>sql. dsn self)
               (List.map_filter (\<lambda>f. files w (path_join (schema_dir self) f))
                  [''primary-keys.sql'', ''foreign-keys.sql'', ''indexes.sql''])"
  using add_indexes_loop_trace [OF assms, of sql_files]
  by (auto simp: add_indexes_def sql_files_def executed_append opened_append spec_file_trace_def
        List.map_filter_simps split: option.splits)

text \<open>
  A schema directory with \<^verbatim>\<open>indexes.sql\<close> only: one connection, one statement block.
\<close>

theorem add_indexes_applies_present_files_in_order_witness:
  "db_connect_ok env0 (dsn factory0)
   \<and> add_indexes env0 factory0 =
       (Inr (), [DBOpen (dsn factory0),
                 Print ''Applying bench/schemas/psql_native/indexes.sql'',
                 DBExec (dsn factory0) ''CREATE INDEX i ON a (x);'',
                 DBClose (dsn factory0)])
   \<and> executed (snd (add_indexes env0 factory0)) = [''CREATE INDEX i ON a (x);'']
   \<and> opened (snd (add_indexes env0 factory0)) = [dsn factory0]"
proof -
  have h1: "db_connect_ok env0 (dsn factory0)"
    by (simp add: env0_def connect0_def)
  have h2: "\<forall>sql. db_exec_ok env0 (dsn factory0) sql"
    by (simp add: env0_def exec0_def)
  show ?thesis
    using add_indexes_applies_present_files_in_order [OF h1 h2] h1
    by (simp add: spec_file_trace_def env0_def files0_def factory0_def path_join_def
          List.map_filter_simps)
qed

text \<open>
  The claim as written fails on a file holding a blank and a newline: its contents are
  executed. (The empty \<^verbatim>\<open>primary-keys.sql\<close> beside it gets a connection and no statement.)
\<close>

theorem add_indexes_executes_whitespace_file:
  "add_indexes (env0\<lparr>files := files_blank\<rparr>) factory0 =
     (Inr (), [DBOpen (dsn factory0),
               Print ''Applying bench/schemas/psql_native/primary-keys.sql'',
               DBClose (dsn factory0),
               DBOpen (dsn factory0),
               Print ''Applying bench/schemas/psql_native/indexes.sql'',
               DBExec (dsn factory0) [CHR '' '', CHR 0x0A],
               DBClose (dsn factory0)])"
  by (simp add: add_indexes_def sql_files_def env0_def factory0_def files_blank_def path_join_def
        andthen_def with_DBConn_def execute_def emit_def connect0_def exec0_def)

text \<open>
  Claim C5. Given the target connection descriptor, and every step succeeding, the
  bootstrapper performs exactly these steps in order: it connects to the descriptor with
  its path swapped to \<^verbatim>\<open>/postgres\<close>, drops the target database with \<^verbatim>\<open>IF EXISTS\<close>, creates
  it from \<^verbatim>\<open>template0\<close> with the UTF-8 encoding, releases that connection, connects to
  the descriptor as it is given, executes the full contents of \<^verbatim>\<open>schema.sql\<close> there, and
  releases the connection.
\<close>

theorem prepare_db_steps_in_order:
  assumes "urlparse w (dsn self) = u"
    and "db_connect_ok w (scheme u @ ''://'' @ netloc u @ ''/postgres'')"
    and "\<forall>sql. db_exec_ok w (scheme u @ ''://'' @ netloc u @ ''/postgres'') sql"
    and "db_connect_ok w (dsn self)"
    and "files w (path_join (schema_dir self) ''schema.sql'') = Some schema"
    and "db_exec_ok w (dsn self) schema"
  shows \<open>prepare_db w self =
     (Inr (),
      [DBOpen (scheme u @ ''://'' @ netloc u @ ''/postgres''),
       Print (''Deleting '' @ drop 1 (path u)),
       DBExec (scheme u @ ''://'' @ netloc u @ ''/postgres'')
         (''DROP DATABASE IF EXISTS '' @ drop 1 (path u)),
       Print (''Creating '' @ drop 1 (path u)),
       DBExec (scheme u @ ''://'' @ netloc u @ ''/postgres'')
         (''CREATE DATABASE '' @ drop 1 (path u)
            @ '' TEMPLATE template0 ENCODING '' @ [CHR 0x27] @ ''UTF-8'' @ [CHR 0x27]),
       DBClose (scheme u @ ''://'' @ netloc u @ ''/postgres''),
       DBOpen (dsn self),
       Print ''Loading schema'',
       DBExec (dsn self) schema,
       DBClose (dsn self)])\<close>
  using assms
  by (simp add: prepare_db_def Let_def andthen_def with_DBConn_def execute_def emit_def
        admin_dsn_def drop_sql_def create_sql_def)

theorem prepare_db_steps_in_order_witness:
  \<open>urlparse env0 (dsn factory0) = urlparse0 (dsn factory0)
   \<and> files env0 (path_join (schema_dir factory0) ''schema.sql'')
       = Some ''CREATE TABLE a (x int);''
   \<and> prepare_db env0 factory0 =
     (Inr (),
      [DBOpen ''postgresql://localhost:5432/postgres'',
       Print ''Deleting bench'',
       DBExec ''postgresql://localhost:5432/postgres'' ''DROP DATABASE IF EXISTS bench'',
       Print ''Creating bench'',
       DBExec ''postgresql://localhost:5432/postgres''
         (''CREATE DATABASE bench TEMPLATE template0 ENCODING ''
            @ [CHR 0x27] @ ''UTF-8'' @ [CHR 0x27]),
       DBClose ''postgresql://localhost:5432/postgres'',
       DBOpen ''postgresql://localhost:5432/bench'',
       Print ''Loading schema'',
       DBExec ''postgresql://localhost:5432/bench'' ''CREATE TABLE a (x int);'',
       DBClose ''postgresql://localhost:5432/bench''])\<close>
proof -
  let ?u = "urlparse0 (dsn factory0)"
  have h1: "urlparse env0 (dsn factory0) = ?u"
    by (simp add: env0_def)
  have h2: "db_connect_ok env0 (scheme ?u @ ''://'' @ netloc ?u @ ''/postgres'')"
    by (simp add: env0_def connect0_def)
  have h3: "\<forall>sql. db_exec_ok env0 (scheme ?u @ ''://'' @ netloc ?u @ ''/postgres'') sql"
    by (simp add: env0_def exec0_def)
  have h4: "db_connect_ok env0 (dsn factory0)"
    by (simp add: env0_def connect0_def)
  have h5: "files env0 (path_join (schema_dir factory0) ''schema.sql'')
              = Some ''CREATE TABLE a (x int);''"
    by (simp add: env0_def files0_def factory0_def path_join_def)
  have h6: "db_exec_ok env0 (dsn factory0) ''CREATE TABLE a (x int);''"
    by (simp add: env0_def exec0_def)
  have d: "dsn factory0 = ''postgresql://localhost:5432/bench''"
    by (simp add: factory0_def)
  show ?thesis
    using prepare_db_steps_in_order [OF h1 h2 h3 h4 h5 h6] h1 h5
    by (simp add: urlparse0_def d)
qed

section \<open>Properties of the task runner\<close>

lemma submitted_append: "submitted (xs @ ys) = submitted xs @ submitted ys"
  by (induction xs rule: submitted.induct) auto

lemma pools_append: "pools (xs @ ys) = pools xs @ pools ys"
  by (induction xs rule: pools.induct) auto

lemma started_append: "started (xs @ ys) = started xs @ started ys"
  by (induction xs rule: started.induct) auto

lemma first_event_append: "first_event xs = Some x \<Longrightarrow> first_event (xs @ ys) = Some x"
  by (cases xs) auto

lemma first_event_take: "first_event xs = Some x \<Longrightarrow> take 1 xs = [x]"
  by (cases xs) auto

lemma shell_finish_events:
  "shell_finish w self t = (exc, evs) \<Longrightarrow>
   submitted evs = [] \<and> pools evs = [] \<and> started evs = []"
  by (auto simp: shell_finish_def split: option.splits)

lemma take_all_but_last:
  "n < length xs \<Longrightarrow> \<not> Suc n < length xs \<Longrightarrow> take n xs @ [xs ! n] = xs"
proof -
  assume a: "n < length xs" and b: "\<not> Suc n < length xs"
  then have "take (Suc n) xs = xs" by simp
  with a show ?thesis by (simp add: take_Suc_conv_app_nth)
qed

text \<open>The moves of the runner, one case for each.\<close>

lemma pool_step_cases [consumes 1, case_names worker_run worker_skip finish submit cancel_next
                        yield_ok yield_exc yield_cancelled]:
  assumes "pool_step w self c p = Some p'"
  obtains
    i where "c = Worker" "int (running (states p)) < max_jobs self"
      "first_queued (states p) = Some i" "states p ! i \<noteq> CANCELLED"
      "p' = p\<lparr>states := (states p)[i := RUNNING],
               trace := trace p @ [Popen (base_dir self) (tasks p ! i)]\<rparr>"
  | i where "c = Worker" "int (running (states p)) < max_jobs self"
      "first_queued (states p) = Some i" "states p ! i = CANCELLED"
      "p' = p\<lparr>states := (states p)[i := CANCELLED_AND_NOTIFIED]\<rparr>"
  | i exc evs where "c = Done i" "i < length (states p)" "states p ! i = RUNNING"
      "shell_finish w self (tasks p ! i) = (exc, evs)"
      "p' = p\<lparr>states := (states p)[i := FINISHED exc], trace := trace p @ evs\<rparr>"
  | "c = Main" "pc p = Submitting" "length (states p) < length (tasks p)"
      "p' = p\<lparr>states := states p @ [PENDING],
               trace := trace p @ [Submit (tasks p ! length (states p))],
               pc := (if Suc (length (states p)) < length (tasks p)
                      then Submitting else Iterating)\<rparr>"
  | k where "c = Main" "pc p = Cancelling k" "k < length (states p)"
      "p' = p\<lparr>states := (states p)[k := cancel (states p ! k)],
               pc := (if Suc k < length (states p) then Cancelling (Suc k) else Iterating)\<rparr>"
  | i where "c = Yield i" "pc p = Iterating" "i < length (states p)" "i \<notin> set (yielded p)"
      "states p ! i = FINISHED None" "p' = p\<lparr>yielded := yielded p @ [i]\<rparr>"
  | i exc where "c = Yield i" "pc p = Iterating" "i < length (states p)"
      "i \<notin> set (yielded p)" "states p ! i = FINISHED (Some exc)"
      "p' = p\<lparr>yielded := yielded p @ [i], trace := trace p @ [PrintTaskException exc],
               pc := Cancelling 0\<rparr>"
  | i where "c = Yield i" "pc p = Iterating" "i < length (states p)" "i \<notin> set (yielded p)"
      "states p ! i = CANCELLED_AND_NOTIFIED"
      "p' = p\<lparr>yielded := yielded p @ [i], pc := Raised\<rparr>"
  using assms
  by (auto simp: pool_step_def shell_start_def
      split: choice.splits option.splits if_splits mainpc.splits fstate.splits prod.splits)

lemma was_started_simps [simp]:
  "was_started RUNNING" "was_started (FINISHED exc)" "\<not> was_started PENDING"
  "\<not> was_started CANCELLED" "\<not> was_started CANCELLED_AND_NOTIFIED"
  by (simp_all add: was_started_def)

lemma queued_simps [simp]:
  "queued PENDING" "queued CANCELLED" "\<not> queued RUNNING" "\<not> queued (FINISHED exc)"
  "\<not> queued CANCELLED_AND_NOTIFIED"
  by (simp_all add: queued_def)

lemma is_finished_simps [simp]:
  "is_finished (FINISHED exc)" "\<not> is_finished PENDING" "\<not> is_finished RUNNING"
  "\<not> is_finished CANCELLED" "\<not> is_finished CANCELLED_AND_NOTIFIED"
  by (simp_all add: is_finished_def)

lemma cancel_props [simp]:
  "queued (cancel s) = queued s" "was_started (cancel s) = was_started s"
  "is_finished (cancel s) = is_finished s" "(cancel s = RUNNING) = (s = RUNNING)"
  by (auto simp: cancel_def)

lemma finished_started: "is_finished s \<Longrightarrow> was_started s"
  by (cases s) auto

lemma first_queued_props:
  "first_queued ss = Some i \<Longrightarrow> i < length ss \<and> queued (ss ! i)"
  by (induction ss arbitrary: i) (auto split: if_splits)

lemma queued_not_started: "queued s \<Longrightarrow> \<not> was_started s"
  by (auto simp: queued_def)

lemma started_of_queued: "list_all queued ss \<Longrightarrow> started_of ts ss = []"
  by (induction ts ss rule: started_of.induct) (auto simp: queued_not_started)

text \<open>The worker that takes the oldest item starts the next task in submission order.\<close>

lemma started_of_dequeue:
  "fifo ss \<Longrightarrow> first_queued ss = Some i \<Longrightarrow> i < length ts \<Longrightarrow>
   started_of ts (ss[i := RUNNING]) = started_of ts ss @ [ts ! i]"
proof (induction ts ss arbitrary: i rule: started_of.induct)
  case (1 t ts s ss)
  show ?case
  proof (cases "queued s")
    case True
    with 1 show ?thesis
      by (auto simp: started_of_queued queued_not_started)
  next
    case False
    with "1.prems" obtain j where j: "first_queued ss = Some j" "i = Suc j"
      by auto
    with 1 False show ?thesis by auto
  qed
qed auto

lemma started_of_update:
  "i < length ss \<Longrightarrow> was_started s' = was_started (ss ! i) \<Longrightarrow>
   started_of ts (ss[i := s']) = started_of ts ss"
proof (induction ts ss arbitrary: i rule: started_of.induct)
  case (1 t ts s ss)
  then show ?case by (cases i) auto
qed auto

lemma started_of_submit:
  "length ss < length ts \<Longrightarrow> started_of ts (ss @ [PENDING]) = started_of ts ss"
proof (induction ss arbitrary: ts)
  case Nil
  then show ?case by (cases ts) auto
next
  case (Cons s ss)
  then show ?case by (cases ts) auto
qed

lemma started_of_subseq: "subseq (started_of ts ss) ts"
  by (induction ts ss rule: started_of.induct) auto

lemma started_of_all:
  "length ss = length ts \<Longrightarrow> list_all was_started ss \<Longrightarrow> started_of ts ss = ts"
  by (induction ts ss rule: started_of.induct) auto

lemma list_all_queued_update:
  "list_all queued ss \<Longrightarrow> queued s' \<Longrightarrow> list_all queued (ss[i := s'])"
  by (induction ss arbitrary: i) (auto split: nat.splits)

lemma fifo_dequeue:
  "fifo ss \<Longrightarrow> first_queued ss = Some i \<Longrightarrow> \<not> queued s' \<Longrightarrow> fifo (ss[i := s'])"
proof (induction ss arbitrary: i)
  case (Cons s ss)
  show ?case
  proof (cases "queued s")
    case True
    with Cons.prems have "i = 0" "list_all queued ss" by auto
    moreover have "list_all queued ss \<Longrightarrow> fifo ss" for ss
      by (induction ss) auto
    ultimately show ?thesis using Cons.prems by auto
  next
    case False
    with Cons.prems obtain j where "first_queued ss = Some j" "i = Suc j" by auto
    with Cons False show ?thesis by auto
  qed
qed simp

lemma fifo_update:
  "fifo ss \<Longrightarrow> i < length ss \<Longrightarrow> queued s' = queued (ss ! i) \<Longrightarrow> fifo (ss[i := s'])"
proof (induction ss arbitrary: i)
  case (Cons s ss)
  then show ?case
    by (cases i) (auto simp: list_all_queued_update list_all_length nth_list_update)
qed simp

lemma fifo_submit: "fifo ss \<Longrightarrow> fifo (ss @ [PENDING])"
  by (induction ss) auto

lemma running_update_le:
  "s' \<noteq> RUNNING \<Longrightarrow> running (ss[i := s']) \<le> running ss"
  unfolding running_def
  by (induction ss arbitrary: i) (auto split: nat.splits)

lemma running_update_same:
  "i < length ss \<Longrightarrow> (s' = RUNNING) = (ss ! i = RUNNING) \<Longrightarrow>
   running (ss[i := s']) = running ss"
  unfolding running_def
  by (induction ss arbitrary: i) (auto split: nat.splits)

lemma running_update_start:
  "running (ss[i := RUNNING]) \<le> Suc (running ss)"
  unfolding running_def
  by (induction ss arbitrary: i) (auto split: nat.splits)

lemma running_submit: "running (ss @ [PENDING]) = running ss"
  by (simp add: running_def)

lemma finished_kept:
  "is_finished (ss ! j) \<Longrightarrow> \<not> is_finished (ss ! i) \<or> is_finished s' \<Longrightarrow> j < length ss
   \<Longrightarrow> is_finished (ss[i := s'] ! j)"
  by (cases "i = j") auto

lemma pool_inv_init: "0 < max_jobs self \<Longrightarrow> pool_inv self ts (pool_init self ts)"
  by (simp add: pool_inv_def pool_init_def running_def)

lemma pool_inv_step:
  assumes "pool_step w self c p = Some p'" and "pool_inv self ts p"
  shows "pool_inv self ts p'"
  using assms(1)
proof (cases rule: pool_step_cases)
  case (worker_run i)
  have i: "i < length (states p)" "queued (states p ! i)"
    using first_queued_props [OF worker_run(3)] by auto
  then have nf: "\<not> is_finished (states p ! i)"
    by (auto simp: queued_def)
  have "int (running ((states p)[i := RUNNING])) \<le> max_jobs self"
    using running_update_start [of "states p" i] worker_run(2) by linarith
  with assms(2) worker_run i nf show ?thesis
    by (auto simp: pool_inv_def started_append submitted_append pools_append fifo_dequeue
          started_of_dequeue list_all_iff finished_kept first_event_append)
next
  case (worker_skip i)
  have i: "i < length (states p)" "queued (states p ! i)"
    using first_queued_props [OF worker_skip(3)] by auto
  then have nf: "\<not> is_finished (states p ! i)"
    by (auto simp: queued_def)
  have "running ((states p)[i := CANCELLED_AND_NOTIFIED]) \<le> running (states p)"
    by (rule running_update_le) simp
  with assms(2) worker_skip i nf show ?thesis
    by (auto simp: pool_inv_def fifo_dequeue started_of_update list_all_iff finished_kept)
next
  case (finish i exc evs)
  have "running ((states p)[i := FINISHED exc]) \<le> running (states p)"
    by (rule running_update_le) simp
  with assms(2) finish shell_finish_events [OF finish(4)] show ?thesis
    by (auto simp: pool_inv_def fifo_update started_of_update list_all_iff finished_kept
          started_append submitted_append pools_append first_event_append)
next
  case submit
  with assms(2) show ?thesis
    by (auto simp: pool_inv_def fifo_submit started_of_submit list_all_iff nth_append
          started_append submitted_append pools_append running_submit
          take_Suc_conv_app_nth take_all_but_last first_event_append)
next
  case (cancel_next k)
  have "running ((states p)[k := cancel (states p ! k)]) = running (states p)"
    using cancel_next(3) by (intro running_update_same) auto
  with assms(2) cancel_next show ?thesis
    by (auto simp: pool_inv_def fifo_update started_of_update list_all_iff finished_kept)
next
  case (yield_ok i)
  with assms(2) show ?thesis
    by (auto simp: pool_inv_def list_all_iff)
next
  case (yield_exc i exc)
  with assms(2) show ?thesis
    by (auto simp: pool_inv_def list_all_iff started_append submitted_append pools_append
          first_event_append)
next
  case (yield_cancelled i)
  with assms(2) show ?thesis
    by (auto simp: pool_inv_def list_all_iff)
qed

lemma pool_inv_exec:
  "exec_schedule w self sched p = Some p' \<Longrightarrow> pool_inv self ts p \<Longrightarrow> pool_inv self ts p'"
  by (induction sched arbitrary: p) (auto split: option.splits dest: pool_inv_step)

lemma all_indices:
  assumes "distinct ys" and "\<forall>i\<in>set ys. i < n" and "length ys = n"
  shows "set ys = {..<n}"
proof -
  have "set ys \<subseteq> {..<n}" using assms(2) by auto
  moreover have "card (set ys) = card {..<n}"
    using assms(1,3) by (simp add: distinct_card)
  ultimately show ?thesis by (simp add: card_subset_eq)
qed

text \<open>
  Whenever the runner returns, under any schedule: it created one pool with the bound
  \<^verbatim>\<open>max_jobs\<close>, before anything else; it submitted exactly the batch, in order; the tasks
  it started are tasks of the batch, each at most once, in submission order; it raised
  nothing, or \<^verbatim>\<open>CancelledError\<close>, never the exception of a task; and when it raised
  nothing, every task of the batch was started.
\<close>

lemma runner_returns:
  assumes "run_tasks_parallel w self sched ts = Some (r, t)" and "0 < max_jobs self"
  shows "pools t = [max_jobs self]" and "submitted t = ts" and "subseq (started t) ts"
    and "take 1 t = [PoolOpen (max_jobs self)]"
    and "r = Inr () \<or> r = Inl CancelledError" and "r = Inr () \<Longrightarrow> started t = ts"
proof -
  from assms obtain p where ex: "exec_schedule w self sched (pool_init self ts) = Some p"
    and res: "pool_result p = Some r" and t: "t = trace p"
    by (auto simp: run_tasks_parallel_def split: option.splits)
  have inv: "pool_inv self ts p"
    using pool_inv_exec [OF ex pool_inv_init [OF assms(2)]] .
  from res have pc: "pc p \<noteq> Submitting"
    by (auto simp: pool_result_def split: mainpc.splits)
  with inv have len: "length (states p) = length ts"
    by (auto simp: pool_inv_def)
  show "pools t = [max_jobs self]" using inv t by (simp add: pool_inv_def)
  show "take 1 t = [PoolOpen (max_jobs self)]"
  proof -
    have "first_event t = Some (PoolOpen (max_jobs self))"
      using inv t by (simp add: pool_inv_def)
    then show ?thesis by (rule first_event_take)
  qed
  show "submitted t = ts" using inv t len by (simp add: pool_inv_def)
  show "subseq (started t) ts" using inv t by (simp add: pool_inv_def started_of_subseq)
  show "r = Inr () \<or> r = Inl CancelledError"
    using res by (auto simp: pool_result_def split: mainpc.splits if_splits)
  show "started t = ts" if "r = Inr ()"
  proof -
    from res that have it: "pc p = Iterating" and ly: "length (yielded p) = length (states p)"
      by (auto simp: pool_result_def split: mainpc.splits if_splits)
    have y: "\<forall>i\<in>set (yielded p). i < length (states p) \<and> is_finished (states p ! i)"
      using inv it by (auto simp: pool_inv_def list_all_iff)
    have "set (yielded p) = {..<length (states p)}"
      using inv y ly by (intro all_indices) (auto simp: pool_inv_def)
    with y have "\<forall>i<length (states p). was_started (states p ! i)"
      by (auto intro: finished_started)
    then have "list_all was_started (states p)"
      by (simp add: list_all_length)
    with inv t len show ?thesis
      by (simp add: pool_inv_def started_of_all)
  qed
qed




lemma running_done:
  "running (map (\<lambda>j. FINISHED (g j)) xs @ replicate m PENDING) = 0"
  by (simp add: running_def)




lemma all_done_length [simp]: "length (all_done w self ts n) = n"
  by (simp add: all_done_def)









text \<open>At no moment do more tasks run than \<^verbatim>\<open>max_jobs\<close>.\<close>

lemma runner_bound:
  "exec_schedule w self sched (pool_init self ts) = Some p \<Longrightarrow> 0 < max_jobs self \<Longrightarrow>
   int (running (states p)) \<le> max_jobs self"
  using pool_inv_exec [OF _ pool_inv_init] by (auto simp: pool_inv_def)

section \<open>Properties of the stages that use the runner\<close>

lemma seq_opt_simps [simp]:
  "seq_opt (Some (Inl e, t)) b = Some (Inl e, t)"
  "seq_opt (Some (Inr u, t)) (Some (r, t')) = Some (r, t @ t')"
  "seq_opt (Some (Inr u, t)) None = None"
  "seq_opt None b = None"
  by (simp_all add: seq_opt_def)

lemma check_diskspace_no_tasks:
  "submitted (snd (check_diskspace w self d)) = []
   \<and> started (snd (check_diskspace w self d)) = []"
  by (auto simp: check_diskspace_def compare_space_def Let_def split: sum.splits option.splits)

lemma preflight_no_tasks:
  "submitted (snd (preflight w self)) = [] \<and> started (snd (preflight w self)) = []"
  by (auto simp: preflight_def check_diskspace_no_tasks split: option.splits)

lemma with_DBConn_no_tasks:
  "submitted (snd body) = [] \<Longrightarrow> started (snd body) = [] \<Longrightarrow>
   submitted (snd (with_DBConn w d body)) = [] \<and> started (snd (with_DBConn w d body)) = []"
  by (simp add: with_DBConn_def submitted_append started_append)

lemma andthen_no_tasks:
  "submitted (snd a) = [] \<Longrightarrow> started (snd a) = [] \<Longrightarrow>
   submitted (snd b) = [] \<Longrightarrow> started (snd b) = [] \<Longrightarrow>
   submitted (snd (andthen a b)) = [] \<and> started (snd (andthen a b)) = []"
  by (cases a; cases b) (auto simp: andthen_def submitted_append started_append split: sum.splits)

lemma execute_no_tasks:
  "submitted (snd (execute w d q)) = [] \<and> started (snd (execute w d q)) = []"
  by (simp add: execute_def)

lemma prepare_db_no_tasks:
  "submitted (snd (prepare_db w self)) = [] \<and> started (snd (prepare_db w self)) = []"
  unfolding prepare_db_def Let_def
  by (intro andthen_no_tasks [THEN conjunct1] andthen_no_tasks [THEN conjunct2] conjI
        with_DBConn_no_tasks [THEN conjunct1] with_DBConn_no_tasks [THEN conjunct2])
     (auto simp: emit_def execute_no_tasks split: option.splits)

lemma collect_ingest_tasks_eq:
  "collect_ingest_tasks self tabs acc =
     (if \<exists>table\<in>set tabs. get_ingest_tasks self table = NotAList
      then Inl (AssertionError not_a_list)
      else Inr (acc @ concat (map (\<lambda>table. the_tasks (get_ingest_tasks self table)) tabs)))"
  by (induction tabs arbitrary: acc) (auto split: answer.splits)



lemmas eval_defs =
  Let_def run_def preflight_def check_diskspace_def compare_space_def db_type_of_def basename_def prepare_db_def
  admin_dsn_def drop_sql_def create_sql_def path_join_def with_DBConn_def execute_def
  emit_def andthen_def seq_opt_def ingest_def add_indexes_def sql_files_def
  vacuum_analyze_def vacuum_cmd_def analyze_cmd_def run_shell_task_def shell_start_def
  shell_finish_def run_tasks_parallel_def pool_init_def pool_step_def pool_result_def
  running_def cancel_def queued_def settled_def
  env0_def factory0_def files0_def free0_def shell0_def connect0_def exec0_def urlparse0_def
  sizing0_def row0_def tasks0_def bad_tasks_def shell_fail_a_def
  sched1_def sched2_def sched1_fail_def sched2_cancel_def

text \<open>
  Claim C1. A task that fails is meant to make the batch fail and to stop the pipeline.
  Evaluated on a batch of one ingestion task that exits with status 1: the runner prints
  the exception, its cancelling loop finds nothing to cancel, and it returns normally;
  \<^verbatim>\<open>run\<close> goes on to the index stage and to \<^verbatim>\<open>VACUUM\<close> and \<^verbatim>\<open>ANALYZE\<close>, and returns
  normally too.
\<close>

theorem failed_ingest_task_does_not_stop_pipeline:
  "run_tasks_parallel (env0\<lparr>shell := shell_fail_a\<rparr>) (factory0\<lparr>TABLES := [''a'']\<rparr>)
     sched1_fail [''load a'']
   = Some (Inr (), [PoolOpen 2, Submit ''load a'', Popen ''bench'' ''load a'',
                    Exited ''load a'' 1,
                    PrintTaskException (AssertionError shell_assert)])
   \<and> run (env0\<lparr>shell := shell_fail_a\<rparr>) (factory0\<lparr>TABLES := [''a'']\<rparr>) sched1_fail sched1
   = Some (Inr (),
       [PrintDiskCheck ''/data'' ''psql'' ''tpch'' 10 5, DiskUsage ''/data'',
        Print ''Preparing DB'']
       @ snd (prepare_db env0 factory0)
       @ [Print ''Ingesting data'', PoolOpen 2, Submit ''load a'', Popen ''bench'' ''load a'',
          Exited ''load a'' 1, PrintTaskException (AssertionError shell_assert),
          Print ''Adding indices'']
       @ snd (add_indexes env0 factory0)
       @ [Print ''VACUUM-ANALYZE'',
          Popen ''bench'' (vacuum_cmd factory0), Exited (vacuum_cmd factory0) 0,
          PoolOpen 2, Submit (analyze_cmd factory0 ''a''),
          Popen ''bench'' (analyze_cmd factory0 ''a''), Exited (analyze_cmd factory0 ''a'') 0])"
  by (simp add: eval_defs)

text \<open>
  The other way the runner handles a failure: with one worker and two tasks, the first
  failing before the second starts, the second future is cancelled, and asking it for its
  exception raises \<^verbatim>\<open>CancelledError\<close> out of the runner. The second task never starts.
\<close>

lemma cancelled_future_raises_CancelledError:
  "run_tasks_parallel (env0\<lparr>shell := shell_fail_a\<rparr>) (factory0\<lparr>max_jobs := 1\<rparr>)
     sched2_cancel [''load a'', ''load b'']
   = Some (Inl CancelledError,
           [PoolOpen 1, Submit ''load a'', Submit ''load b'', Popen ''bench'' ''load a'',
            Exited ''load a'' 1, PrintTaskException (AssertionError shell_assert)])"
  by (simp add: eval_defs)

text \<open>
  Claim C6. In the ingestion stage, an answer of the plugin that is not a list, for any
  table, is fatal before any task of the batch is dispatched: the stage raises with no
  pool created and no process started, under every schedule, and so does \<^verbatim>\<open>run\<close> unless
  an earlier stage has raised already. When every answer is a list, the tasks of all
  tables, in table order, are handed to the runner as one batch: one pool, and the tasks
  submitted to it are exactly that flattened list.
\<close>

theorem ingest_checks_answers_then_submits_one_batch:
  "((\<exists>table\<in>set (TABLES self). get_ingest_tasks self table = NotAList) \<longrightarrow>
      ingest w self sched = Some (Inl (AssertionError not_a_list), [Print ''Ingesting data''])
      \<and> (\<exists>e t. run w self sched sched' = Some (Inl e, t)
                \<and> submitted t = [] \<and> started t = []))
   \<and> ((\<forall>table\<in>set (TABLES self). get_ingest_tasks self table \<noteq> NotAList) \<longrightarrow>
      ingest w self sched =
        seq_opt (Some (emit (Print ''Ingesting data'')))
          (run_tasks_parallel w self sched
             (concat (map (\<lambda>table. the_tasks (get_ingest_tasks self table)) (TABLES self))))
      \<and> (0 < max_jobs self \<longrightarrow>
           (\<forall>r t. ingest w self sched = Some (r, t) \<longrightarrow>
              pools t = [max_jobs self]
              \<and> submitted t =
                  concat (map (\<lambda>table. the_tasks (get_ingest_tasks self table))
                            (TABLES self)))))"
proof (intro conjI impI allI)
  assume bad: "\<exists>table\<in>set (TABLES self). get_ingest_tasks self table = NotAList"
  then show ing: "ingest w self sched
                    = Some (Inl (AssertionError not_a_list), [Print ''Ingesting data''])"
    by (simp add: ingest_def collect_ingest_tasks_eq emit_def)
  obtain r1 t1 where p1: "preflight w self = (r1, t1)" by (cases "preflight w self")
  obtain r2 t2 where p2: "prepare_db w self = (r2, t2)" by (cases "prepare_db w self")
  have n1: "submitted t1 = []" "started t1 = []"
    using preflight_no_tasks [of w self] p1 by auto
  have n2: "submitted t2 = []" "started t2 = []"
    using prepare_db_no_tasks [of w self] p2 by auto
  show "\<exists>e t. run w self sched sched' = Some (Inl e, t) \<and> submitted t = [] \<and> started t = []"
    using n1 n2
    by (cases r1; cases r2)
       (auto simp: run_def p1 p2 ing emit_def submitted_append started_append)
next
  assume good: "\<forall>table\<in>set (TABLES self). get_ingest_tasks self table \<noteq> NotAList"
  then show eq: "ingest w self sched =
        seq_opt (Some (emit (Print ''Ingesting data'')))
          (run_tasks_parallel w self sched
             (concat (map (\<lambda>table. the_tasks (get_ingest_tasks self table)) (TABLES self))))"
    by (simp add: ingest_def collect_ingest_tasks_eq)
  fix r t
  assume w: "0 < max_jobs self" and res: "ingest w self sched = Some (r, t)"
  from res eq obtain t' where t': "t = Print ''Ingesting data'' # t'"
    and rt: "run_tasks_parallel w self sched
               (concat (map (\<lambda>table. the_tasks (get_ingest_tasks self table)) (TABLES self)))
             = Some (r, t')"
    by (auto simp: emit_def seq_opt_def split: option.splits)
  show "pools t = [max_jobs self]"
    using runner_returns(1) [OF rt w] t' by simp
  show "submitted t
          = concat (map (\<lambda>table. the_tasks (get_ingest_tasks self table)) (TABLES self))"
    using runner_returns(2) [OF rt w] t' by simp
qed

text \<open>
  Two tables. With a plugin that answers something else than a list for the second
  table, the stage raises at once; with the plugin that answers one task for each table,
  the two tasks form the one batch, here run side by side.
\<close>

theorem ingest_checks_answers_then_submits_one_batch_witness:
  "get_ingest_tasks (factory0\<lparr>get_ingest_tasks := bad_tasks\<rparr>) ''b'' = NotAList
   \<and> ingest env0 (factory0\<lparr>get_ingest_tasks := bad_tasks\<rparr>) sched2
       = Some (Inl (AssertionError not_a_list), [Print ''Ingesting data''])
   \<and> ingest env0 factory0 sched2
       = Some (Inr (), [Print ''Ingesting data'', PoolOpen 2, Submit ''load a'',
                        Submit ''load b'', Popen ''bench'' ''load a'',
                        Popen ''bench'' ''load b'', Exited ''load b'' 0,
                        Exited ''load a'' 0])
   \<and> pools [Print ''Ingesting data'', PoolOpen 2, Submit ''load a'',
             Submit ''load b'', Popen ''bench'' ''load a'',
             Popen ''bench'' ''load b'', Exited ''load b'' 0,
             Exited ''load a'' 0] = [max_jobs factory0]
   \<and> submitted [Print ''Ingesting data'', PoolOpen 2, Submit ''load a'',
                 Submit ''load b'', Popen ''bench'' ''load a'',
                 Popen ''bench'' ''load b'', Exited ''load b'' 0,
                 Exited ''load a'' 0] = [''load a'', ''load b'']"
proof -
  let ?bad = "factory0\<lparr>get_ingest_tasks := bad_tasks\<rparr>"
  let ?t = "[Print ''Ingesting data'', PoolOpen 2, Submit ''load a'',
             Submit ''load b'', Popen ''bench'' ''load a'',
             Popen ''bench'' ''load b'', Exited ''load b'' 0,
             Exited ''load a'' 0]"
  have b: "\<exists>table\<in>set (TABLES ?bad). get_ingest_tasks ?bad table = NotAList"
    by (simp add: factory0_def bad_tasks_def)
  have g: "\<forall>table\<in>set (TABLES factory0). get_ingest_tasks factory0 table \<noteq> NotAList"
    by (simp add: factory0_def tasks0_def)
  have m: "0 < max_jobs factory0"
    by (simp add: factory0_def)
  have r: "ingest env0 factory0 sched2 = Some (Inr (), ?t)"
    by (simp add: eval_defs)
  have c: "concat (map (\<lambda>table. the_tasks (get_ingest_tasks factory0 table)) (TABLES factory0))
             = [''load a'', ''load b'']"
    by (simp add: factory0_def tasks0_def)
  note thm_bad = ingest_checks_answers_then_submits_one_batch
                   [of ?bad env0 sched2 sched1, THEN conjunct1, THEN mp, OF b]
  note thm_good = ingest_checks_answers_then_submits_one_batch
                    [of factory0 env0 sched2 sched1, THEN conjunct2, THEN mp, OF g]
  from thm_good m r
  have "pools ?t = [max_jobs factory0]
      \<and> submitted ?t
          = concat (map (\<lambda>table. the_tasks (get_ingest_tasks factory0 table))
                      (TABLES factory0))"
    by blast
  then have "pools ?t = [max_jobs factory0] \<and> submitted ?t = [''load a'', ''load b'']"
    unfolding c .
  moreover have "get_ingest_tasks ?bad ''b'' = NotAList"
    by (simp add: bad_tasks_def)
  ultimately show ?thesis
    using thm_bad r by blast
qed




end
